theory Spec2Isabelle
  imports
    Complex_Main
    "HOL-Library.AList"
    "HOL-Library.Char_ord"
    "HOL-Library.List_Lexorder"
    "HOL-Library.Product_Lexorder"
begin

section \<open>The fact store (state\_store.py)\<close>

text \<open>
  The SQLite database of \<^verbatim>\<open>StateStore\<close> is modelled as a record of five tables, each a
  list of rows in insertion order. A row of \<^verbatim>\<open>indexed_files\<close>, \<^verbatim>\<open>symbols\<close>,
  \<^verbatim>\<open>imports\<close> and \<^verbatim>\<open>calls\<close> is a pair of its \<^verbatim>\<open>file_path\<close> column and the
  remaining columns. The autoincrement \<^verbatim>\<open>id\<close> columns are never read by the program and
  are left out. Python floats (\<^verbatim>\<open>mtime\<close>, \<^verbatim>\<open>weight\<close>, confidences) are modelled by
  the rational numbers they denote; the program only compares them, takes maxima and
  rounds them to three decimals.
\<close>

record indexed_file =
  file_hash :: string
  mtime :: rat
  indexed_at :: rat
  parse_error :: "string option"

record symbol =
  symbol_name :: string
  qualname :: string
  kind :: string
  lineno :: int
  end_lineno :: int
  signature :: string

record call =
  caller_qualname :: string
  callee_name :: string

record edge =
  src_file :: string
  dst_file :: string
  edge_type :: string
  weight :: rat

record store =
  indexed_files :: "(string \<times> indexed_file) list"
  symbols :: "(string \<times> symbol) list"
  import_rows :: "(string \<times> string) list"
  calls :: "(string \<times> call) list"
  edges :: "edge list"

definition empty_store :: store where
  "empty_store =
     \<lparr>indexed_files = [], symbols = [], import_rows = [], calls = [], edges = []\<rparr>"

text \<open>
  \<^verbatim>\<open>get_indexed_file_meta\<close>: the dictionary from \<^verbatim>\<open>file_path\<close> to the columns
  \<^verbatim>\<open>file_hash\<close>, \<^verbatim>\<open>mtime\<close> and \<^verbatim>\<open>parse_error\<close>, as an association list.
  \<^verbatim>\<open>file_path\<close> is the primary key of the table (predicate \<open>primary_key_ok\<close> below), so
  the dictionary has one item per row.
\<close>

record file_meta =
  meta_file_hash :: string
  meta_mtime :: rat
  meta_parse_error :: "string option"

definition get_indexed_file_meta :: "store \<Rightarrow> (string \<times> file_meta) list" where
  "get_indexed_file_meta s =
     map (\<lambda>(p, r). (p, \<lparr>meta_file_hash = file_hash r, meta_mtime = mtime r,
                          meta_parse_error = parse_error r\<rparr>))
       (indexed_files s)"

definition primary_key_ok :: "store \<Rightarrow> bool" where
  "primary_key_ok s \<longleftrightarrow> distinct (map fst (indexed_files s))"

text \<open>
  \<^verbatim>\<open>upsert_indexed_file\<close>: \<^verbatim>\<open>INSERT ... ON CONFLICT(file_path) DO UPDATE\<close>. The row of
  an existing key is overwritten in place, a new key is appended.
\<close>

definition upsert_indexed_file ::
  "string \<Rightarrow> string \<Rightarrow> rat \<Rightarrow> rat \<Rightarrow> string option \<Rightarrow> store \<Rightarrow> store" where
  "upsert_indexed_file file_path fhash mt ts perr s =
     s\<lparr>indexed_files :=
         AList.update file_path
           \<lparr>file_hash = fhash, mtime = mt, indexed_at = ts, parse_error = perr\<rparr>
           (indexed_files s)\<rparr>"

text \<open>\<^verbatim>\<open>delete_file\<close>: five \<^verbatim>\<open>DELETE\<close> statements, one per table.\<close>

definition delete_file :: "string \<Rightarrow> store \<Rightarrow> store" where
  "delete_file file_path s =
     s\<lparr>indexed_files := filter (\<lambda>r. fst r \<noteq> file_path) (indexed_files s),
       symbols := filter (\<lambda>r. fst r \<noteq> file_path) (symbols s),
       import_rows := filter (\<lambda>r. fst r \<noteq> file_path) (import_rows s),
       calls := filter (\<lambda>r. fst r \<noteq> file_path) (calls s),
       edges := filter (\<lambda>e. \<not> (src_file e = file_path \<or> dst_file e = file_path)) (edges s)\<rparr>"

text \<open>
  \<^verbatim>\<open>replace_file_analysis\<close>: delete the file's symbol, import and call rows, then insert
  the new ones (an empty list inserts nothing).
\<close>

definition replace_file_analysis ::
  "string \<Rightarrow> symbol list \<Rightarrow> string list \<Rightarrow> call list \<Rightarrow> store \<Rightarrow> store" where
  "replace_file_analysis file_path syms imps cls s =
     s\<lparr>symbols := filter (\<lambda>r. fst r \<noteq> file_path) (symbols s) @ map (Pair file_path) syms,
       import_rows := filter (\<lambda>r. fst r \<noteq> file_path) (import_rows s) @ map (Pair file_path) imps,
       calls := filter (\<lambda>r. fst r \<noteq> file_path) (calls s) @ map (Pair file_path) cls\<rparr>"

text \<open>
  \<^verbatim>\<open>symbol_files_by_name\<close> builds a dictionary from symbol names to the set of files
  defining them; the model gives the dictionary's value at one name (the empty list for
  a missing key, as \<^verbatim>\<open>symbols_by_name.get(callee, set())\<close> reads it).
\<close>

definition symbol_files_by_name :: "store \<Rightarrow> string \<Rightarrow> string list" where
  "symbol_files_by_name s name =
     remdups (map fst (filter (\<lambda>r. symbol_name (snd r) = name) (symbols s)))"

text \<open>
  \<^verbatim>\<open>replace_edges\<close>: \<^verbatim>\<open>DELETE FROM edges\<close>, then \<^verbatim>\<open>INSERT OR IGNORE\<close> of every given
  edge; the table is \<^verbatim>\<open>UNIQUE(src_file, dst_file, edge_type)\<close>, so a row whose triple is
  already present is ignored.
\<close>

definition edge_key :: "edge \<Rightarrow> string \<times> string \<times> string" where
  "edge_key e = (src_file e, dst_file e, edge_type e)"

definition insert_or_ignore :: "edge \<Rightarrow> edge list \<Rightarrow> edge list" where
  "insert_or_ignore e es = (if edge_key e \<in> edge_key ` set es then es else es @ [e])"

definition replace_edges :: "edge list \<Rightarrow> store \<Rightarrow> store" where
  "replace_edges es s = s\<lparr>edges := fold insert_or_ignore es []\<rparr>"

record counts =
  count_indexed_files :: nat
  count_symbols :: nat
  count_imports :: nat
  count_calls :: nat
  count_edges :: nat
  count_parse_errors :: nat

definition get_counts :: "store \<Rightarrow> counts" where
  "get_counts s =
     \<lparr>count_indexed_files = length (indexed_files s),
      count_symbols = length (symbols s),
      count_imports = length (import_rows s),
      count_calls = length (calls s),
      count_edges = length (edges s),
      count_parse_errors =
        length (filter (\<lambda>r. parse_error (snd r) \<noteq> None) (indexed_files s))\<rparr>"

section \<open>The source parser (index\_engine.py)\<close>

text \<open>
  The syntax tree that \<^verbatim>\<open>ast.parse\<close> returns is a tree of nodes; \<^verbatim>\<open>ast.walk\<close> and
  \<^verbatim>\<open>NodeVisitor.generic_visit\<close> only see a node's class and its child nodes, in field
  order. A node is modelled as its kind, carrying the attributes the program reads, and
  the list of its child nodes. The texts that \<^verbatim>\<open>ast.unparse\<close> renders for base classes
  and annotations belong to the Python library and are part of the node's data
  (\<^verbatim>\<open>_safe_unparse\<close> yields the empty string where rendering fails). The first child of a
  \<^verbatim>\<open>Call\<close> node is its \<^verbatim>\<open>func\<close> field.
\<close>

record fdef =
  fd_name :: string
  fd_lineno :: int
  fd_end_lineno :: int
  fd_args :: "(string \<times> string option) list"
  fd_vararg :: "string option"
  fd_kwarg :: "string option"
  fd_returns :: "string option"

record cdef =
  cd_name :: string
  cd_lineno :: int
  cd_end_lineno :: int
  cd_bases :: "string list"

datatype nkind =
    Import "string list"
  | ImportFrom "string option" "string list"
  | ClassDef cdef
  | FunctionDef fdef
  | AsyncFunctionDef fdef
  | Call
  | Name string
  | Attribute string
  | Other

datatype node = Node nkind "node list"

fun join_with :: "string \<Rightarrow> string list \<Rightarrow> string" where
  "join_with sep [] = []"
| "join_with sep [x] = x"
| "join_with sep (x # y # ys) = x @ sep @ join_with sep (y # ys)"

text \<open>
  \<^verbatim>\<open>_extract_imports\<close>. \<^verbatim>\<open>ast.walk\<close> yields the tree's nodes, every node once, at any
  depth; the tokens go into a set that is returned sorted, so the order of the walk does
  not show in the result.
\<close>

fun walk :: "node \<Rightarrow> node list" where
  "walk (Node k cs) = Node k cs # concat (map walk cs)"

fun import_tokens :: "node \<Rightarrow> string list" where
  "import_tokens (Node (Import names) cs) = filter (\<lambda>n. n \<noteq> []) names"
| "import_tokens (Node (ImportFrom modname names) cs) =
     (let m = (case modname of None \<Rightarrow> [] | Some m \<Rightarrow> m) in
      concat (map (\<lambda>n.
        if n = ''*'' then (if m \<noteq> [] then [m] else [])
        else if m \<noteq> [] then [m @ ''.'' @ n]
        else [n]) names))"
| "import_tokens (Node k cs) = []"

definition extract_imports :: "node \<Rightarrow> string list" where
  "extract_imports tree = sort (remdups (concat (map import_tokens (walk tree))))"

text \<open>
  \<^verbatim>\<open>_Collector\<close>: the visitor's mutable lists \<^verbatim>\<open>symbols\<close> and \<^verbatim>\<open>calls\<close> are threaded
  through the traversal; the scope stack, pushed before and popped after the children of
  a definition are visited, is an argument.
\<close>

record collector =
  col_symbols :: "symbol list"
  col_calls :: "call list"

definition collector_qualname :: "string list \<Rightarrow> string \<Rightarrow> string" where
  "collector_qualname scope name =
     (if scope = [] then name else join_with ''.'' (scope @ [name]))"

definition function_signature :: "fdef \<Rightarrow> string \<Rightarrow> string" where
  "function_signature fd knd =
     (let params =
            map (\<lambda>(a, ann). a @ (case ann of None \<Rightarrow> [] | Some t \<Rightarrow> '': '' @ t)) (fd_args fd)
            @ (case fd_vararg fd of None \<Rightarrow> [] | Some v \<Rightarrow> [''*'' @ v])
            @ (case fd_kwarg fd of None \<Rightarrow> [] | Some v \<Rightarrow> [''**'' @ v]);
          ret = (case fd_returns fd of None \<Rightarrow> [] | Some t \<Rightarrow> '' -> '' @ t);
          prefix = (if knd = ''async_function'' then ''async def'' else ''def'')
      in prefix @ '' '' @ fd_name fd @ ''('' @ join_with '', '' params @ '')'' @ ret)"

definition function_symbol :: "string list \<Rightarrow> fdef \<Rightarrow> string \<Rightarrow> symbol" where
  "function_symbol scope fd knd =
     \<lparr>symbol_name = fd_name fd, qualname = collector_qualname scope (fd_name fd),
      kind = knd, lineno = fd_lineno fd, end_lineno = fd_end_lineno fd,
      signature = function_signature fd knd\<rparr>"

definition class_symbol :: "string list \<Rightarrow> cdef \<Rightarrow> symbol" where
  "class_symbol scope cd =
     (let bases = join_with '', '' (filter (\<lambda>b. b \<noteq> []) (cd_bases cd)) in
      \<lparr>symbol_name = cd_name cd, qualname = collector_qualname scope (cd_name cd),
       kind = ''class'', lineno = cd_lineno cd, end_lineno = cd_end_lineno cd,
       signature = (if bases \<noteq> [] then ''class '' @ cd_name cd @ ''('' @ bases @ '')''
                    else ''class '' @ cd_name cd)\<rparr>)"

fun call_callee :: "node list \<Rightarrow> string" where
  "call_callee (Node (Name ident) cs # rest) = ident"
| "call_callee (Node (Attribute attr) cs # rest) = attr"
| "call_callee cs = []"

fun visit :: "string list \<Rightarrow> node \<Rightarrow> collector \<Rightarrow> collector" where
  "visit scope (Node (ClassDef cd) cs) c =
     fold (visit (scope @ [cd_name cd])) cs
       (c\<lparr>col_symbols := col_symbols c @ [class_symbol scope cd]\<rparr>)"
| "visit scope (Node (FunctionDef fd) cs) c =
     fold (visit (scope @ [fd_name fd])) cs
       (c\<lparr>col_symbols := col_symbols c @ [function_symbol scope fd ''function'']\<rparr>)"
| "visit scope (Node (AsyncFunctionDef fd) cs) c =
     fold (visit (scope @ [fd_name fd])) cs
       (c\<lparr>col_symbols := col_symbols c @ [function_symbol scope fd ''async_function'']\<rparr>)"
| "visit scope (Node Call cs) c =
     fold (visit scope) cs
       (if call_callee cs \<noteq> [] then
          c\<lparr>col_calls := col_calls c @
              [\<lparr>caller_qualname = (if scope \<noteq> [] then join_with ''.'' scope else ''<module>''),
                callee_name = call_callee cs\<rparr>]\<rparr>
        else c)"
| "visit scope (Node k cs) c = fold (visit scope) cs c"

text \<open>
  \<^verbatim>\<open>_parse_python_file\<close>. The file is read and handed to \<^verbatim>\<open>ast.parse\<close>, whose outcome
  is a parameter: \<open>Inl msg\<close> when it raises \<^verbatim>\<open>SyntaxError\<close> or \<^verbatim>\<open>ValueError\<close> with
  \<^verbatim>\<open>str(exc) = msg\<close> (the two exceptions the function catches), \<open>Inr tree\<close> when it
  returns a tree.
\<close>

definition parse_python_file ::
  "(string \<Rightarrow> string + node) \<Rightarrow> string \<Rightarrow>
     symbol list \<times> string list \<times> call list \<times> string option" where
  "parse_python_file ast_parse source =
     (case ast_parse source of
        Inl msg \<Rightarrow> ([], [], [], Some msg)
      | Inr tree \<Rightarrow>
          (let c = visit [] tree \<lparr>col_symbols = [], col_calls = []\<rparr> in
           (col_symbols c, extract_imports tree, col_calls c, None)))"

section \<open>The scanner and the graph builder\<close>

text \<open>
  The project tree is a parameter. \<open>disk\<close> lists the regular files below the project
  root: \<open>df_path\<close> is the path as \<^verbatim>\<open>rglob\<close> and \<^verbatim>\<open>joinpath\<close> name it (its components
  relative to the root), \<open>df_resolved\<close> the components of
  \<^verbatim>\<open>path.resolve().relative_to(project_root)\<close> (they differ from \<open>df_path\<close> only for a
  symbolic link), \<open>df_source\<close> what \<^verbatim>\<open>read_text\<close> returns and \<open>df_mtime\<close> the file's
  \<^verbatim>\<open>st_mtime\<close>. The library functions \<^verbatim>\<open>hashlib.sha256\<close>, \<^verbatim>\<open>ast.parse\<close> (called with the
  file's name and text) and \<^verbatim>\<open>time.time\<close> (read when a file is indexed) are parameters
  as well; \<open>abs_to_rel\<close> is used by the impact analyzer and described there.
\<close>

record disk_file =
  df_path :: "string list"
  df_resolved :: "string list"
  df_source :: string
  df_mtime :: rat

record env =
  disk :: "disk_file list"
  sha256_text :: "string \<Rightarrow> string"
  ast_parse :: "string list \<Rightarrow> string \<Rightarrow> string + node"
  time_at :: "string \<Rightarrow> rat"
  abs_to_rel :: "string \<Rightarrow> string option"

definition SKIP_DIRS :: "string set" where
  "SKIP_DIRS = {''.elephant-coder'', ''.git'', ''.venv'', ''venv'', ''__pycache__'',
     ''.mypy_cache'', ''.pytest_cache'', ''node_modules'', ''dist'', ''build''}"

definition ends_with :: "string \<Rightarrow> string \<Rightarrow> bool" where
  "ends_with s suf \<longleftrightarrow>
     length suf \<le> length s \<and> drop (length s - length suf) s = suf"

definition normalize_rel :: "disk_file \<Rightarrow> string" where
  "normalize_rel d = join_with ''/'' (df_resolved d)"

text \<open>\<^verbatim>\<open>_iter_python_files\<close>: \<^verbatim>\<open>rglob("*.py")\<close>, the exclusion of directories, the sort.\<close>

definition iter_python_files :: "env \<Rightarrow> disk_file list" where
  "iter_python_files e =
     sort_key df_path
       (filter (\<lambda>d. df_path d \<noteq> [] \<and> ends_with (last (df_path d)) ''.py''
                    \<and> set (df_resolved d) \<inter> SKIP_DIRS = {})
          (disk e))"

text \<open>
  \<^verbatim>\<open>_resolve_import_to_file\<close>. The module token is split at its dots; the candidates
  are the path with \<^verbatim>\<open>.py\<close> appended to its last component and the path extended by
  \<^verbatim>\<open>__init__.py\<close>; the first candidate that is a file on disk is returned, normalised.
  (Module tokens come out of the parser as dotted identifiers, so \<^verbatim>\<open>with_suffix\<close> has
  no suffix to replace.)
\<close>

fun split_on :: "char \<Rightarrow> string \<Rightarrow> string list" where
  "split_on c [] = [[]]"
| "split_on c (x # xs) =
     (if x = c then [] # split_on c xs
      else (case split_on c xs of [] \<Rightarrow> [[x]] | p # ps \<Rightarrow> (x # p) # ps))"

fun first_existing :: "disk_file list \<Rightarrow> string list list \<Rightarrow> string option" where
  "first_existing dsk [] = None"
| "first_existing dsk (c # cs) =
     (case find (\<lambda>d. df_path d = c) dsk of
        Some d \<Rightarrow> Some (normalize_rel d)
      | None \<Rightarrow> first_existing dsk cs)"

definition resolve_import_to_file :: "env \<Rightarrow> string \<Rightarrow> string option" where
  "resolve_import_to_file e module_name =
     (if module_name = [] then None
      else (let parts = split_on (CHR ''.'') module_name in
            first_existing (disk e)
              [butlast parts @ [last parts @ ''.py''], parts @ [''__init__.py'']]))"

text \<open>
  \<^verbatim>\<open>_rebuild_edges\<close>: the set of edge tuples from the import rows and the call rows,
  stored sorted; the number of tuples is returned.
\<close>

definition import_edges :: "env \<Rightarrow> store \<Rightarrow> (string \<times> string \<times> string \<times> rat) list" where
  "import_edges e s =
     concat (map (\<lambda>(src, m).
        (case resolve_import_to_file e m of
           None \<Rightarrow> []
         | Some dst \<Rightarrow> if dst \<noteq> [] \<and> dst \<noteq> src then [(src, dst, ''import'', 1)] else []))
       (import_rows s))"

definition call_edges :: "store \<Rightarrow> (string \<times> string \<times> string \<times> rat) list" where
  "call_edges s =
     concat (map (\<lambda>(src, c).
        map (\<lambda>dst. (src, dst, ''call'', 7 / 10))
          (filter (\<lambda>dst. dst \<noteq> src) (symbol_files_by_name s (callee_name c))))
       (calls s))"

definition edge_of_tuple :: "string \<times> string \<times> string \<times> rat \<Rightarrow> edge" where
  "edge_of_tuple t =
     (case t of (src, dst, ty, w) \<Rightarrow>
        \<lparr>src_file = src, dst_file = dst, edge_type = ty, weight = w\<rparr>)"

definition rebuild_edges :: "env \<Rightarrow> store \<Rightarrow> store \<times> nat" where
  "rebuild_edges e s =
     (let edge_set = remdups (import_edges e s @ call_edges s) in
      (replace_edges (map edge_of_tuple (sort edge_set)) s, length edge_set))"

section \<open>Refresh orchestration\<close>

record refresh_stats =
  files_scanned :: nat
  files_indexed :: nat
  files_skipped :: nat
  files_deleted :: nat
  parse_errors :: nat
  symbols_total :: nat
  edges_total :: nat

record refresh_acc =
  acc_store :: store
  acc_indexed :: nat
  acc_skipped :: nat
  acc_parse_errors :: nat

text \<open>The condition under which the loop of \<^verbatim>\<open>refresh_index\<close> skips a file.\<close>

definition should_skip :: "file_meta option \<Rightarrow> string \<Rightarrow> rat \<Rightarrow> bool" where
  "should_skip prev fhash mt =
     (case prev of
        None \<Rightarrow> False
      | Some p \<Rightarrow> meta_file_hash p = fhash \<and> meta_mtime p = mt
                  \<and> meta_parse_error p \<in> {None, Some []})"

text \<open>One iteration of the loop over \<^verbatim>\<open>current_map.items()\<close>.\<close>

definition refresh_file ::
  "env \<Rightarrow> (string \<times> file_meta) list \<Rightarrow> string \<times> disk_file \<Rightarrow> refresh_acc \<Rightarrow> refresh_acc" where
  "refresh_file e previous item a =
     (case item of (rel, d) \<Rightarrow>
        (let source = df_source d;
             fhash = sha256_text e source;
             mt = df_mtime d;
             prev = map_of previous rel
         in if should_skip prev fhash mt then a\<lparr>acc_skipped := acc_skipped a + 1\<rparr>
            else (case parse_python_file (ast_parse e (df_path d)) (df_source d) of
                    (syms, imps, cls, perr) \<Rightarrow>
                      a\<lparr>acc_store :=
                          replace_file_analysis rel syms imps cls
                            (upsert_indexed_file rel fhash mt (time_at e rel) perr (acc_store a)),
                        acc_indexed := acc_indexed a + 1,
                        acc_parse_errors :=
                          acc_parse_errors a + (if perr \<noteq> None then 1 else 0)\<rparr>)))"

text \<open>
  \<^verbatim>\<open>current_map\<close>, the dictionary comprehension from normalised paths to files: a key
  met again keeps its place and takes the later file.
\<close>

definition current_map :: "env \<Rightarrow> (string \<times> disk_file) list" where
  "current_map e =
     fold (\<lambda>d m. AList.update (normalize_rel d) d m) (iter_python_files e) []"

definition deleted_paths :: "env \<Rightarrow> store \<Rightarrow> string list" where
  "deleted_paths e s =
     sort (remdups (filter (\<lambda>p. p \<notin> fst ` set (current_map e))
                      (map fst (get_indexed_file_meta s))))"

definition refresh_index :: "env \<Rightarrow> store \<Rightarrow> store \<times> refresh_stats" where
  "refresh_index e s =
     (let previous = get_indexed_file_meta s;
          current_files = iter_python_files e;
          old = deleted_paths e s;
          s1 = fold delete_file old s;
          a = fold (refresh_file e previous) (current_map e)
                \<lparr>acc_store = s1, acc_indexed = 0, acc_skipped = 0, acc_parse_errors = 0\<rparr>;
          r = rebuild_edges e (acc_store a)
      in (fst r,
          \<lparr>files_scanned = length current_files,
           files_indexed = acc_indexed a,
           files_skipped = acc_skipped a,
           files_deleted = length old,
           parse_errors = acc_parse_errors a,
           symbols_total = count_symbols (get_counts (fst r)),
           edges_total = snd r\<rparr>))"

text \<open>The metadata row that a re-parse of file \<open>d\<close> writes for the path \<open>rel\<close>.\<close>
definition fresh_row :: "env \<Rightarrow> string \<Rightarrow> disk_file \<Rightarrow> indexed_file" where
  "fresh_row e rel d =
     \<lparr>file_hash = sha256_text e (df_source d), mtime = df_mtime d, indexed_at = time_at e rel,
      parse_error = snd (snd (snd (parse_python_file (ast_parse e (df_path d)) (df_source d))))\<rparr>"

section \<open>The impact analyzer\<close>

text \<open>
  Exceptions that can leave \<^verbatim>\<open>impact_for_files\<close>: a failed dictionary lookup in the
  traversal, and whatever the oracle's \<^verbatim>\<open>predict_consequence\<close> raises.
\<close>

datatype exn = KeyError string | OracleError string

text \<open>
  Step 1, the normalisation of the input tokens. \<^verbatim>\<open>str.replace\<close> and \<^verbatim>\<open>str.strip\<close>
  work on byte strings here, so the white space stripped is the ASCII white space of
  Python. What \<^verbatim>\<open>Path(norm).is_absolute()\<close> and
  \<^verbatim>\<open>absolute.resolve().relative_to(project_root).as_posix()\<close> give is a parameter of the
  file system: \<open>abs_to_rel norm\<close> is the relative form of an absolute path below the
  project root, and \<open>None\<close> for a relative path or a path outside the root.
\<close>

definition is_space :: "char \<Rightarrow> bool" where
  "is_space c \<longleftrightarrow> (let n = of_char c :: nat in (9 \<le> n \<and> n \<le> 13) \<or> (28 \<le> n \<and> n \<le> 32))"

definition py_strip :: "string \<Rightarrow> string" where
  "py_strip s = rev (dropWhile is_space (rev (dropWhile is_space s)))"

definition normalize_token :: "string \<Rightarrow> string" where
  "normalize_token item =
     py_strip (map (\<lambda>c. if c = CHR 0x5C then CHR ''/'' else c) item)"

definition normalize_changed ::
  "(string \<Rightarrow> string option) \<Rightarrow> string set \<Rightarrow> string list \<Rightarrow> string list" where
  "normalize_changed to_rel indexed changed_files =
     concat (map (\<lambda>item.
        (let norm = normalize_token item in
         if norm \<in> indexed then [norm]
         else (case to_rel norm of
                 None \<Rightarrow> []
               | Some rel \<Rightarrow> if rel \<noteq> [] \<and> rel \<in> indexed then [rel] else [])))
       changed_files)"

text \<open>
  Step 2, the reverse adjacency: \<^verbatim>\<open>reverse.setdefault(dst, []).append(...)\<close> for every
  edge, and \<^verbatim>\<open>reverse.get(cur, [])\<close>.
\<close>

definition reverse_get ::
  "(string \<times> (string \<times> string \<times> rat) list) list \<Rightarrow> string \<Rightarrow> (string \<times> string \<times> rat) list" where
  "reverse_get reverse cur = (case map_of reverse cur of None \<Rightarrow> [] | Some l \<Rightarrow> l)"

definition reverse_adjacency ::
  "edge list \<Rightarrow> (string \<times> (string \<times> string \<times> rat) list) list" where
  "reverse_adjacency es =
     fold (\<lambda>e reverse.
        AList.update (dst_file e)
          (reverse_get reverse (dst_file e) @ [(src_file e, edge_type e, weight e)]) reverse)
       es []"

text \<open>
  Step 3, the traversal. \<open>visit_deps\<close> is the inner loop over the reverse neighbours
  of the popped node, \<open>bfs\<close> the \<^verbatim>\<open>while frontier\<close> loop. The dictionary \<^verbatim>\<open>distance\<close> is
  an association list in insertion order, the deque \<^verbatim>\<open>frontier\<close> a list popped at its
  head.
\<close>

fun visit_deps ::
  "string list \<Rightarrow> nat \<Rightarrow> (string \<times> nat) list \<times> string list
     \<Rightarrow> (string \<times> nat) list \<times> string list" where
  "visit_deps [] cur_dist st = st"
| "visit_deps (dep # deps) cur_dist (distance, frontier) =
     (if dep \<in> fst ` set distance then visit_deps deps cur_dist (distance, frontier)
      else visit_deps deps cur_dist
             (AList.update dep (cur_dist + 1) distance, frontier @ [dep]))"

definition all_deps :: "(string \<times> (string \<times> string \<times> rat) list) list \<Rightarrow> string set" where
  "all_deps reverse = (\<Union>entry \<in> set reverse. fst ` set (snd entry))"

lemma reverse_get_all_deps: "fst ` set (reverse_get reverse cur) \<subseteq> all_deps reverse"
proof (cases "map_of reverse cur")
  case None
  then show ?thesis by (simp add: reverse_get_def)
next
  case (Some l)
  then have "(cur, l) \<in> set reverse" by (rule map_of_SomeD)
  then have "fst ` set l \<subseteq> all_deps reverse" by (force simp: all_deps_def)
  with Some show ?thesis by (simp add: reverse_get_def)
qed

lemma finite_all_deps: "finite (all_deps reverse)"
  by (simp add: all_deps_def)

lemma visit_deps_measure:
  "finite D \<Longrightarrow> set deps \<subseteq> D \<Longrightarrow>
   card (D - fst ` set (fst (visit_deps deps cur_dist (distance, frontier))))
     + length (snd (visit_deps deps cur_dist (distance, frontier)))
   = card (D - fst ` set distance) + length frontier"
proof (induction deps arbitrary: distance frontier)
  case Nil
  then show ?case by simp
next
  case (Cons dep deps)
  show ?case
  proof (cases "dep \<in> fst ` set distance")
    case True
    with Cons show ?thesis by simp
  next
    case False
    from Cons.prems False have "dep \<in> D - fst ` set distance" by simp
    moreover have "D - fst ` set (AList.update dep (cur_dist + 1) distance)
        = (D - fst ` set distance) - {dep}"
      by (auto simp: dom_update)
    ultimately have "card (D - fst ` set (AList.update dep (cur_dist + 1) distance))
        = card (D - fst ` set distance) - 1" and "0 < card (D - fst ` set distance)"
      using Cons.prems(1) by (auto simp: card_gt_0_iff)
    with Cons.IH [of "AList.update dep (cur_dist + 1) distance" "frontier @ [dep]"] Cons.prems False
    show ?thesis by simp
  qed
qed

function bfs ::
  "(string \<times> (string \<times> string \<times> rat) list) list \<Rightarrow> int \<Rightarrow> (string \<times> nat) list
     \<Rightarrow> string list \<Rightarrow> exn + (string \<times> nat) list" where
  "bfs reverse max_depth distance [] = Inr distance"
| "bfs reverse max_depth distance (cur # frontier) =
     (case map_of distance cur of
        None \<Rightarrow> Inl (KeyError cur)
      | Some cur_dist \<Rightarrow>
          if int cur_dist \<ge> max_depth then bfs reverse max_depth distance frontier
          else bfs reverse max_depth
                 (fst (visit_deps (map fst (reverse_get reverse cur)) cur_dist (distance, frontier)))
                 (snd (visit_deps (map fst (reverse_get reverse cur)) cur_dist (distance, frontier))))"
  by pat_completeness auto
termination
proof (relation "measure (\<lambda>(reverse, max_depth, distance, frontier).
          card (all_deps reverse - fst ` set distance) + length frontier)", goal_cases)
  case 1
  then show ?case by simp
next
  case (2 reverse max_depth distance cur frontier cur_dist)
  then show ?case by simp
next
  case (3 reverse max_depth distance cur frontier cur_dist)
  have "set (map fst (reverse_get reverse cur)) \<subseteq> all_deps reverse"
    using reverse_get_all_deps [of reverse cur] by simp
  from visit_deps_measure [OF finite_all_deps this, of cur_dist distance frontier]
  show ?case by (simp add: case_prod_unfold)
qed


text \<open>The seeding loop: every changed file gets distance 0 and enters the frontier.\<close>

definition seed_distance :: "string list \<Rightarrow> (string \<times> nat) list" where
  "seed_distance changed = fold (\<lambda>file_path distance. AList.update file_path 0 distance) changed []"

text \<open>
  Step 4, the score. \<^verbatim>\<open>round(x, 3)\<close> rounds to the nearest multiple of one thousandth,
  a tie going to the even neighbour.
\<close>

definition round_half_even :: "rat \<Rightarrow> int" where
  "round_half_even x =
     (let f = \<lfloor>x\<rfloor>; r = x - of_int f in
      if r < 1 / 2 then f else if 1 / 2 < r then f + 1 else if even f then f else f + 1)"

definition py_round3 :: "rat \<Rightarrow> rat" where
  "py_round3 x = of_int (round_half_even (x * 1000)) / 1000"

definition impact_kind_of :: "nat \<Rightarrow> string" where
  "impact_kind_of d =
     (if d = 0 then ''changed'' else if d = 1 then ''direct'' else ''transitive'')"

definition base_confidence :: "nat \<Rightarrow> rat" where
  "base_confidence d =
     (if d = 0 then 1 else if d = 1 then 85 / 100
      else max (25 / 100) (py_round3 ((75 / 100) / of_nat d)))"

text \<open>
  Step 5, the oracle. Importing \<^verbatim>\<open>grilly.experimental.cognitive\<close> and constructing its
  \<^verbatim>\<open>WorldModel\<close> either raises (the exception's text is kept) or gives a world object.
  The object is fed with \<^verbatim>\<open>add_fact\<close> and \<^verbatim>\<open>add_causal_link\<close> calls and then queried:
  \<open>World w\<close> holds the function \<open>w\<close> from the calls made and the queried subject to the
  outcome of \<^verbatim>\<open>predict_consequence\<close>, a list of effects with their strengths or an
  exception. Of the summary dictionary the model keeps the fields \<^verbatim>\<open>enabled\<close>,
  \<^verbatim>\<open>error\<close> and the three counters computed here (the others echo the configuration or
  read attributes of the world object).
\<close>

datatype world_call =
    AddFact string string string rat string
  | AddCausalLink string string rat

datatype cognitive =
    ImportFails string
  | InitFails string
  | World "world_call list \<Rightarrow> string \<Rightarrow> exn + (string \<times> rat) list"

record config =
  world_model_enabled :: bool
  world_model_max_edge_facts :: nat
  world_model_max_symbol_facts :: nat

record world_summary =
  ws_enabled :: bool
  ws_error :: "string option"
  ws_edge_facts :: nat
  ws_symbol_facts :: nat
  ws_symbol_facts_truncated :: nat

definition summary_base :: world_summary where
  "summary_base =
     \<lparr>ws_enabled = False, ws_error = None, ws_edge_facts = 0, ws_symbol_facts = 0,
      ws_symbol_facts_truncated = 0\<rparr>"

definition edge_calls :: "edge \<Rightarrow> world_call list" where
  "edge_calls e =
     (let strength = max (2 / 10) (min 1 (weight e));
          relation = (if edge_type e = ''import'' then ''imports'' else ''calls'')
      in [AddFact (''file:'' @ src_file e) relation (''file:'' @ dst_file e) strength ''index'',
          AddCausalLink (''file:'' @ src_file e) (''file:'' @ dst_file e) strength])"

definition symbol_call :: "string \<times> symbol \<Rightarrow> world_call" where
  "symbol_call row =
     AddFact (''file:'' @ fst row) ''contains'' (''symbol:'' @ qualname (snd row)) (9 / 10) ''index''"

definition build_cognitive_world ::
  "config \<Rightarrow> cognitive \<Rightarrow> store
     \<Rightarrow> (string \<Rightarrow> exn + (string \<times> rat) list) option \<times> world_summary" where
  "build_cognitive_world cfg orc s =
     (if \<not> world_model_enabled cfg then
        (None, summary_base\<lparr>ws_error := Some ''disabled by config''\<rparr>)
      else (case orc of
          ImportFails exc \<Rightarrow>
            (None, summary_base\<lparr>ws_error := Some (''cognitive import failed: '' @ exc)\<rparr>)
        | InitFails exc \<Rightarrow>
            (None, summary_base\<lparr>ws_error := Some (''world model init failed: '' @ exc)\<rparr>)
        | World w \<Rightarrow>
            (let fed_edges = take (world_model_max_edge_facts cfg) (edges s);
                 fed_symbols = take (world_model_max_symbol_facts cfg) (symbols s)
             in (Some (w (concat (map edge_calls fed_edges) @ map symbol_call fed_symbols)),
                 summary_base\<lparr>ws_enabled := True, ws_error := None,
                   ws_edge_facts := length fed_edges,
                   ws_symbol_facts := length fed_symbols,
                   ws_symbol_facts_truncated := length (symbols s) - length fed_symbols\<rparr>))))"

text \<open>
  The prediction loop: its state is the set of predicted files, their strengths and the
  distance dictionary. \<open>apply_effect\<close> is the body of the inner loop for one
  \<^verbatim>\<open>(effect, strength)\<close> pair, \<open>predict_all\<close> the loop over the changed files.
\<close>

record pred_state =
  predicted_set :: "string list"
  predicted_strength :: "(string \<times> rat) list"
  ps_distance :: "(string \<times> nat) list"

definition apply_effect :: "string set \<Rightarrow> string \<times> rat \<Rightarrow> pred_state \<Rightarrow> pred_state" where
  "apply_effect indexed item st =
     (case item of (effect, strength) \<Rightarrow>
        if take 5 effect \<noteq> ''file:'' then st
        else (let predicted = drop 5 effect in
              if predicted \<notin> indexed then st
              else st\<lparr>predicted_set := List.insert predicted (predicted_set st),
                      predicted_strength :=
                        AList.update predicted
                          (max strength
                             (case map_of (predicted_strength st) predicted of
                                None \<Rightarrow> 0 | Some v \<Rightarrow> v))
                          (predicted_strength st),
                      ps_distance :=
                        (case map_of (ps_distance st) predicted of
                           None \<Rightarrow> AList.update predicted 1 (ps_distance st)
                         | Some d \<Rightarrow>
                             if d > 1 then AList.update predicted 1 (ps_distance st)
                             else ps_distance st)\<rparr>))"

fun predict_all ::
  "(string \<Rightarrow> exn + (string \<times> rat) list) \<Rightarrow> string set \<Rightarrow> string list \<Rightarrow> pred_state
     \<Rightarrow> exn + pred_state" where
  "predict_all w indexed [] st = Inr st"
| "predict_all w indexed (file_path # rest) st =
     (case w (''file:'' @ file_path) of
        Inl x \<Rightarrow> Inl x
      | Inr consequences \<Rightarrow> predict_all w indexed rest (fold (apply_effect indexed) consequences st))"

text \<open>The entries of the report, one per item of the distance dictionary.\<close>

record impact_entry =
  ie_file_path :: string
  ie_distance :: nat
  impact_kind :: string
  confidence :: rat
  impact_source :: string

definition make_entry ::
  "(string \<times> nat) list \<Rightarrow> pred_state \<Rightarrow> string \<times> nat \<Rightarrow> impact_entry" where
  "make_entry static_distance st item =
     (case item of (file_path, d) \<Rightarrow>
        (let knd = impact_kind_of d;
             conf = base_confidence d;
             in_static = (file_path \<in> fst ` set static_distance);
             in_pred = (file_path \<in> set (predicted_set st));
             strength = map_of (predicted_strength st) file_path
         in if d = 0 then
              \<lparr>ie_file_path = file_path, ie_distance = d, impact_kind = knd,
               confidence = conf, impact_source = ''changed''\<rparr>
            else if in_static \<and> in_pred then
              \<lparr>ie_file_path = file_path, ie_distance = d, impact_kind = knd,
               confidence = conf, impact_source = ''graph+world_model''\<rparr>
            else if in_pred \<and> \<not> in_static then
              \<lparr>ie_file_path = file_path, ie_distance = d, impact_kind = knd,
               confidence =
                 max conf (py_round3 (case strength of None \<Rightarrow> 4 / 10 | Some v \<Rightarrow> v)),
               impact_source = ''world_model''\<rparr>
            else if in_pred then
              \<lparr>ie_file_path = file_path, ie_distance = d, impact_kind = knd,
               confidence = max conf (py_round3 (case strength of None \<Rightarrow> conf | Some v \<Rightarrow> v)),
               impact_source = ''graph''\<rparr>
            else
              \<lparr>ie_file_path = file_path, ie_distance = d, impact_kind = knd,
               confidence = conf, impact_source = ''graph''\<rparr>))"

record impact_report =
  changed_files :: "string list"
  impacted :: "impact_entry list"
  direct_count :: nat
  transitive_count :: nat
  world_model :: world_summary
  world_predicted_files :: "string list"
  report_max_depth :: int

text \<open>
  \<^verbatim>\<open>impact_for_files\<close>. \<open>static_distance\<close> of the source is the result of the traversal,
  copied before the oracle is consulted.
\<close>

definition impact_for_files ::
  "config \<Rightarrow> cognitive \<Rightarrow> env \<Rightarrow> store \<Rightarrow> string list \<Rightarrow> int \<Rightarrow> exn + impact_report" where
  "impact_for_files cfg orc e s tokens max_depth =
     (let indexed = fst ` set (get_indexed_file_meta s);
          changed = sort (remdups (normalize_changed (abs_to_rel e) indexed tokens));
          reverse = reverse_adjacency (edges s)
      in case bfs reverse max_depth (seed_distance changed) changed of
           Inl x \<Rightarrow> Inl x
         | Inr static_distance \<Rightarrow>
             (case build_cognitive_world cfg orc s of (world, summary) \<Rightarrow>
                (case (case world of
                         None \<Rightarrow> Inr \<lparr>predicted_set = [], predicted_strength = [],
                                       ps_distance = static_distance\<rparr>
                       | Some w \<Rightarrow>
                           predict_all w indexed changed
                             \<lparr>predicted_set = [], predicted_strength = [],
                              ps_distance = static_distance\<rparr>) of
                   Inl x \<Rightarrow> Inl x
                 | Inr st \<Rightarrow>
                     (let entries =
                            map (make_entry static_distance st)
                              (sort_key (\<lambda>item. (snd item, fst item)) (ps_distance st))
                      in Inr \<lparr>changed_files = changed,
                              impacted = entries,
                              direct_count =
                                length (filter (\<lambda>x. impact_kind x = ''direct'') entries),
                              transitive_count =
                                length (filter (\<lambda>x. impact_kind x = ''transitive'') entries),
                              world_model = summary,
                              world_predicted_files = sort (predicted_set st),
                              report_max_depth = max_depth\<rparr>))))"

section \<open>Store invariants\<close>

text \<open>
  \<open>no_rows p s\<close>: no metadata, symbol, import or call row of \<open>s\<close> has the file path
  \<open>p\<close>. \<open>facts_owned s\<close>: every symbol, import and call row belongs to a file that has
  a metadata row. \<open>reachable\<close>: the stores that \<^verbatim>\<open>refresh_index\<close>, the only operation of
  the service that writes, produces from the empty database, whatever the project trees.
\<close>

definition no_rows :: "string \<Rightarrow> store \<Rightarrow> bool" where
  "no_rows p s \<longleftrightarrow>
     p \<notin> fst ` set (indexed_files s) \<and> p \<notin> fst ` set (symbols s)
     \<and> p \<notin> fst ` set (import_rows s) \<and> p \<notin> fst ` set (calls s)"

definition facts_owned :: "store \<Rightarrow> bool" where
  "facts_owned s \<longleftrightarrow>
     fst ` set (symbols s) \<subseteq> fst ` set (indexed_files s)
     \<and> fst ` set (import_rows s) \<subseteq> fst ` set (indexed_files s)
     \<and> fst ` set (calls s) \<subseteq> fst ` set (indexed_files s)"

inductive reachable :: "store \<Rightarrow> bool" where
  reachable_empty: "reachable empty_store"
| reachable_refresh: "reachable s \<Longrightarrow> reachable (fst (refresh_index e s))"

section \<open>Example project trees\<close>

text \<open>
  Small concrete inputs on which the theorems below are instantiated. The stand-in for
  \<^verbatim>\<open>hashlib.sha256\<close> is the identity (it only has to be a function of the text).
\<close>

definition a_tree :: node where
  "a_tree = Node Other [Node (Import [''b'']) []]"

definition b_tree :: node where
  "b_tree =
     Node Other
       [Node (FunctionDef \<lparr>fd_name = ''foo'', fd_lineno = 1, fd_end_lineno = 2, fd_args = [],
                             fd_vararg = None, fd_kwarg = None, fd_returns = None\<rparr>) []]"

definition nested_import_tree :: node where
  "nested_import_tree =
     Node Other
       [Node (FunctionDef \<lparr>fd_name = ''load'', fd_lineno = 1, fd_end_lineno = 2, fd_args = [],
                             fd_vararg = None, fd_kwarg = None, fd_returns = None\<rparr>)
          [Node (Import [''os'']) []]]"

definition main_tree :: node where
  "main_tree = Node Other [Node (Import [''build.helper'']) []]"

definition toy_parse :: "string list \<Rightarrow> string \<Rightarrow> string + node" where
  "toy_parse path source =
     (if source = ''import b'' then Inr a_tree
      else if source = ''def foo(): return 1'' then Inr b_tree
      else if source = ''import build.helper'' then Inr main_tree
      else Inl ''invalid syntax'')"

definition file_a :: disk_file where
  "file_a = \<lparr>df_path = [''a.py''], df_resolved = [''a.py''], df_source = ''import b'',
              df_mtime = 100\<rparr>"

definition file_b :: disk_file where
  "file_b = \<lparr>df_path = [''b.py''], df_resolved = [''b.py''],
              df_source = ''def foo(): return 1'', df_mtime = 101\<rparr>"

definition file_bad :: disk_file where
  "file_bad = \<lparr>df_path = [''bad.py''], df_resolved = [''bad.py''],
                df_source = ''def broken(:'', df_mtime = 102\<rparr>"

definition link_to_a :: disk_file where
  "link_to_a = \<lparr>df_path = [''link.py''], df_resolved = [''a.py''], df_source = ''import b'',
                 df_mtime = 100\<rparr>"

definition file_main :: disk_file where
  "file_main = \<lparr>df_path = [''main.py''], df_resolved = [''main.py''],
                 df_source = ''import build.helper'', df_mtime = 103\<rparr>"

definition file_build_helper :: disk_file where
  "file_build_helper = \<lparr>df_path = [''build'', ''helper.py''],
     df_resolved = [''build'', ''helper.py''], df_source = ''def foo(): return 1'',
     df_mtime = 104\<rparr>"

definition env_of :: "disk_file list \<Rightarrow> env" where
  "env_of files =
     \<lparr>disk = files, sha256_text = (\<lambda>text. text), ast_parse = toy_parse,
      time_at = (\<lambda>rel. 1000), abs_to_rel = (\<lambda>norm. None)\<rparr>"

definition store_ab :: store where
  "store_ab = fst (refresh_index (env_of [file_a, file_b]) empty_store)"

definition cfg_on :: config where
  "cfg_on = \<lparr>world_model_enabled = True, world_model_max_edge_facts = 20000,
              world_model_max_symbol_facts = 5000\<rparr>"

text \<open>
  A store with five indexed files and the dependency cycle \<^verbatim>\<open>b -> a\<close>, \<^verbatim>\<open>c -> b\<close>,
  \<^verbatim>\<open>d -> c\<close>, \<^verbatim>\<open>a -> d\<close> (\<^verbatim>\<open>e.py\<close> is isolated), and a world object that predicts, for
  \<^verbatim>\<open>a.py\<close>, the files \<^verbatim>\<open>e.py\<close> (strength 0.5) and \<^verbatim>\<open>d.py\<close> (strength 0.95), a file
  that is not indexed and an effect that is not a file.
\<close>

definition store_chain :: store where
  "store_chain =
     empty_store\<lparr>indexed_files :=
         map (\<lambda>p. (p, \<lparr>file_hash = [], mtime = 0, indexed_at = 0, parse_error = None\<rparr>))
           [''a.py'', ''b.py'', ''c.py'', ''d.py'', ''e.py''],
       edges :=
         [\<lparr>src_file = ''b.py'', dst_file = ''a.py'', edge_type = ''import'', weight = 1\<rparr>,
          \<lparr>src_file = ''c.py'', dst_file = ''b.py'', edge_type = ''import'', weight = 1\<rparr>,
          \<lparr>src_file = ''d.py'', dst_file = ''c.py'', edge_type = ''call'', weight = 7 / 10\<rparr>,
          \<lparr>src_file = ''a.py'', dst_file = ''d.py'', edge_type = ''call'', weight = 7 / 10\<rparr>]\<rparr>"

definition toy_world :: "world_call list \<Rightarrow> string \<Rightarrow> exn + (string \<times> rat) list" where
  "toy_world fed subject =
     (if subject = ''file:a.py''
      then Inr [(''file:e.py'', 1 / 2), (''file:d.py'', 95 / 100), (''file:zzz.py'', 1),
                (''symbol:x'', 1)]
      else Inr [])"

definition acc0 :: refresh_acc where
  "acc0 = \<lparr>acc_store = empty_store, acc_indexed = 0, acc_skipped = 0, acc_parse_errors = 0\<rparr>"

section \<open>Change detection\<close>

text \<open>
  C3. One iteration of the loop of \<^verbatim>\<open>refresh_index\<close> re-parses the file (runs the
  parser, writes the metadata row and the facts, counts the file as indexed) if and only
  if there is no previous record for its path, or the stored hash differs from the newly
  computed one, or the stored mtime differs, or the stored parse error is a non-empty
  string; otherwise it only counts the file as skipped. In particular a file with a
  recorded non-empty parse error is re-parsed whatever its hash and mtime are.
\<close>

theorem C3_reparse_iff:
  "refresh_file e previous (rel, d) a =
     (if map_of previous rel = None
         \<or> (\<exists>p. map_of previous rel = Some p
               \<and> (meta_file_hash p \<noteq> sha256_text e (df_source d)
                    \<or> meta_mtime p \<noteq> df_mtime d
                    \<or> (\<exists>msg. meta_parse_error p = Some msg \<and> msg \<noteq> [])))
      then (case parse_python_file (ast_parse e (df_path d)) (df_source d) of
              (syms, imps, cls, perr) \<Rightarrow>
                a\<lparr>acc_store :=
                    replace_file_analysis rel syms imps cls
                      (upsert_indexed_file rel (sha256_text e (df_source d)) (df_mtime d)
                         (time_at e rel) perr (acc_store a)),
                  acc_indexed := acc_indexed a + 1,
                  acc_parse_errors := acc_parse_errors a + (if perr \<noteq> None then 1 else 0)\<rparr>)
      else a\<lparr>acc_skipped := acc_skipped a + 1\<rparr>)"
  by (cases "map_of previous rel")
     (auto simp: refresh_file_def should_skip_def Let_def split: prod.splits)

theorem C3_reparse_iff_witness:
  "acc_indexed
     (refresh_file (env_of [file_bad])
        [(''bad.py'', \<lparr>meta_file_hash = ''def broken(:'', meta_mtime = 102,
                         meta_parse_error = Some ''invalid syntax''\<rparr>)]
        (''bad.py'', file_bad) acc0) = 1
   \<and> acc_skipped
     (refresh_file (env_of [file_a])
        [(''a.py'', \<lparr>meta_file_hash = ''import b'', meta_mtime = 100,
                       meta_parse_error = None\<rparr>)]
        (''a.py'', file_a) acc0) = 1"
  using
    C3_reparse_iff [of "env_of [file_bad]"
      "[(''bad.py'', \<lparr>meta_file_hash = ''def broken(:'', meta_mtime = 102,
                        meta_parse_error = Some ''invalid syntax''\<rparr>)]"
      "''bad.py''" file_bad acc0]
    C3_reparse_iff [of "env_of [file_a]"
      "[(''a.py'', \<lparr>meta_file_hash = ''import b'', meta_mtime = 100,
                      meta_parse_error = None\<rparr>)]"
      "''a.py''" file_a acc0]
  by (simp add: env_of_def file_bad_def file_a_def acc0_def split: prod.splits)

section \<open>The counters of a refresh\<close>

lemma update_fresh: "k \<notin> fst ` set al \<Longrightarrow> AList.update k v al = al @ [(k, v)]"
  by (induction al) auto

lemma fold_update_distinct:
  "distinct (map f xs) \<Longrightarrow> f ` set xs \<inter> fst ` set acc = {} \<Longrightarrow>
   fold (\<lambda>d m. AList.update (f d) d m) xs acc = acc @ map (\<lambda>d. (f d, d)) xs"
proof (induction xs arbitrary: acc)
  case Nil
  then show ?case by simp
next
  case (Cons x xs)
  from Cons.prems have fresh: "f x \<notin> fst ` set acc" by auto
  have "f ` set xs \<inter> fst ` set (acc @ [(f x, x)]) = {}"
    using Cons.prems by auto
  with Cons.IH [of "acc @ [(f x, x)]"] Cons.prems fresh show ?case
    by (simp add: update_fresh)
qed

lemma current_map_distinct:
  "distinct (map normalize_rel (iter_python_files e)) \<Longrightarrow>
   current_map e = map (\<lambda>d. (normalize_rel d, d)) (iter_python_files e)"
  unfolding current_map_def by (simp add: fold_update_distinct)

lemma fold_update_keys:
  "fst ` set (fold (\<lambda>d m. AList.update (f d) d m) xs acc) = f ` set xs \<union> fst ` set acc"
  by (induction xs arbitrary: acc) (auto simp: dom_update)

lemma fold_update_keys_distinct:
  "distinct (map fst acc) \<Longrightarrow> distinct (map fst (fold (\<lambda>d m. AList.update (f d) d m) xs acc))"
  by (induction xs arbitrary: acc) (auto simp: distinct_update)

lemma current_map_keys: "fst ` set (current_map e) = normalize_rel ` set (iter_python_files e)"
  unfolding current_map_def by (simp add: fold_update_keys)

lemma current_map_keys_distinct: "distinct (map fst (current_map e))"
  unfolding current_map_def by (rule fold_update_keys_distinct) simp

lemma set_update_cases:
  "x \<in> set (AList.update k v al) \<Longrightarrow> x \<in> set al \<or> x = (k, v)"
  by (induction al) (auto split: if_splits)

lemma fold_update_values:
  "(k, d) \<in> set (fold (\<lambda>d m. AList.update (f d) d m) xs acc) \<Longrightarrow>
   (k, d) \<in> set acc \<or> (d \<in> set xs \<and> f d = k)"
proof (induction xs arbitrary: acc)
  case Nil then show ?case by simp
next
  case (Cons x xs)
  from Cons.IH [OF Cons.prems [simplified]] show ?case
    by (auto dest: set_update_cases)
qed

lemma refresh_file_counts:
  "acc_indexed (refresh_file e prev it a) + acc_skipped (refresh_file e prev it a)
     = Suc (acc_indexed a + acc_skipped a)"
  by (auto simp: refresh_file_def Let_def split: prod.splits)

lemma fold_refresh_counts:
  "acc_indexed (fold (refresh_file e prev) xs a) + acc_skipped (fold (refresh_file e prev) xs a)
     = acc_indexed a + acc_skipped a + length xs"
  by (induction xs arbitrary: a) (simp_all add: refresh_file_counts)

lemma refresh_counts_current_map:
  "files_indexed (snd (refresh_index e s)) + files_skipped (snd (refresh_index e s))
     = length (current_map e)"
  by (simp add: refresh_index_def Let_def fold_refresh_counts)

lemma refresh_counts_distinct:
  "distinct (map normalize_rel (iter_python_files e)) \<Longrightarrow>
   files_indexed (snd (refresh_index e s)) + files_skipped (snd (refresh_index e s))
     = files_scanned (snd (refresh_index e s))"
  by (simp add: refresh_counts_current_map current_map_distinct) (simp add: refresh_index_def Let_def)

text \<open>
  C10. The claim is that every result of \<^verbatim>\<open>refresh_index\<close> has
  \<^verbatim>\<open>files_indexed + files_skipped == files_scanned\<close>. \<^verbatim>\<open>files_scanned\<close> is the length of
  the list of enumerated paths, while the loop runs over \<^verbatim>\<open>current_map\<close>, a dictionary
  keyed by the normalised path. For a tree holding \<^verbatim>\<open>a.py\<close> and a symbolic link
  \<^verbatim>\<open>link.py\<close> to it, both paths are enumerated and both normalise to \<^verbatim>\<open>a.py\<close>: two
  files are scanned, one is indexed, none is skipped. (Lemma \<open>refresh_counts_distinct\<close>
  above is the equation where no two enumerated paths share a normalised path.)
\<close>

theorem C10_symlink_counts:
  "files_scanned (snd (refresh_index (env_of [file_a, link_to_a]) empty_store)) = 2
   \<and> files_indexed (snd (refresh_index (env_of [file_a, link_to_a]) empty_store)) = 1
   \<and> files_skipped (snd (refresh_index (env_of [file_a, link_to_a]) empty_store)) = 0"
  by code_simp

section \<open>Idempotent refresh\<close>

lemma refresh_file_indexed_files:
  "indexed_files (acc_store (refresh_file e prev (rel, d) a)) =
     (if should_skip (map_of prev rel) (sha256_text e (df_source d)) (df_mtime d)
      then indexed_files (acc_store a)
      else AList.update rel (fresh_row e rel d) (indexed_files (acc_store a)))"
  by (auto simp: refresh_file_def Let_def fresh_row_def upsert_indexed_file_def
        replace_file_analysis_def split: prod.splits)

lemma fold_refresh_lookup_other:
  "k \<notin> fst ` set xs \<Longrightarrow>
   map_of (indexed_files (acc_store (fold (refresh_file e prev) xs a))) k
     = map_of (indexed_files (acc_store a)) k"
proof (induction xs arbitrary: a)
  case Nil
  then show ?case by simp
next
  case (Cons x xs)
  obtain rel d where x: "x = (rel, d)" by (cases x)
  with Cons.prems have "k \<noteq> rel" "k \<notin> fst ` set xs" by auto
  with Cons.IH [of "refresh_file e prev x a"] x show ?case
    by (simp add: refresh_file_indexed_files update_conv')
qed

lemma fold_refresh_lookup:
  "distinct (map fst xs) \<Longrightarrow> (rel, d) \<in> set xs \<Longrightarrow>
   map_of (indexed_files (acc_store (fold (refresh_file e prev) xs a))) rel
     = (if should_skip (map_of prev rel) (sha256_text e (df_source d)) (df_mtime d)
        then map_of (indexed_files (acc_store a)) rel
        else Some (fresh_row e rel d))"
proof (induction xs arbitrary: a)
  case Nil
  then show ?case by simp
next
  case (Cons x xs)
  show ?case
  proof (cases "x = (rel, d)")
    case True
    with Cons.prems have "rel \<notin> fst ` set xs" by force
    then have "map_of (indexed_files (acc_store (fold (refresh_file e prev) xs (refresh_file e prev x a)))) rel
        = map_of (indexed_files (acc_store (refresh_file e prev x a))) rel"
      by (rule fold_refresh_lookup_other)
    with True show ?thesis
      by (simp add: refresh_file_indexed_files update_conv')
  next
    case False
    with Cons.prems have in_xs: "(rel, d) \<in> set xs" and dist: "distinct (map fst xs)"
      by auto
    from in_xs have "rel \<in> fst ` set xs" by force
    with Cons.prems have neq: "fst x \<noteq> rel" by auto
    obtain rel' d' where x: "x = (rel', d')" by (cases x)
    with neq have "map_of (indexed_files (acc_store (refresh_file e prev x a))) rel
        = map_of (indexed_files (acc_store a)) rel"
      by (simp add: refresh_file_indexed_files update_conv')
    with Cons.IH [OF dist in_xs, of "refresh_file e prev x a"] show ?thesis by simp
  qed
qed

lemma map_of_filter_key:
  "map_of (filter (\<lambda>r. fst r \<noteq> p) xs) k = (if k = p then None else map_of xs k)"
  by (induction xs) auto

lemma fold_delete_lookup:
  "map_of (indexed_files (fold delete_file ps s)) k
     = (if k \<in> set ps then None else map_of (indexed_files s) k)"
  by (induction ps arbitrary: s) (auto simp: delete_file_def map_of_filter_key)

lemma rebuild_edges_tables:
  "indexed_files (fst (rebuild_edges e s)) = indexed_files s"
  "symbols (fst (rebuild_edges e s)) = symbols s"
  "import_rows (fst (rebuild_edges e s)) = import_rows s"
  "calls (fst (rebuild_edges e s)) = calls s"
  by (simp_all add: rebuild_edges_def Let_def replace_edges_def)

lemma meta_lookup:
  "map_of (get_indexed_file_meta s) k =
     map_option (\<lambda>r. \<lparr>meta_file_hash = file_hash r, meta_mtime = mtime r,
                         meta_parse_error = parse_error r\<rparr>) (map_of (indexed_files s) k)"
proof -
  have "map_of (map (\<lambda>(p, r). (p, f r)) xs) k = map_option f (map_of xs k)" for f :: "indexed_file \<Rightarrow> file_meta" and xs
    by (induction xs) auto
  then show ?thesis unfolding get_indexed_file_meta_def by simp
qed


lemma current_map_values:
  "(rel, d) \<in> set (current_map e) \<Longrightarrow> d \<in> set (iter_python_files e) \<and> normalize_rel d = rel"
  unfolding current_map_def by (auto dest: fold_update_values)

lemma deleted_paths_set:
  "set (deleted_paths e s) = fst ` set (indexed_files s) - fst ` set (current_map e)"
proof -
  have "map fst (get_indexed_file_meta s) = map fst (indexed_files s)"
    by (simp add: get_indexed_file_meta_def case_prod_unfold)
  then show ?thesis by (auto simp: deleted_paths_def)
qed

lemma should_skip_fresh:
  "parse_error r \<in> {None, Some []} \<Longrightarrow> file_hash r = h \<Longrightarrow> mtime r = m \<Longrightarrow>
   map_of (indexed_files s) k = Some r \<Longrightarrow>
   should_skip (map_of (get_indexed_file_meta s) k) h m"
  by (simp add: meta_lookup should_skip_def)

lemma should_skip_stored:
  "should_skip (map_of (get_indexed_file_meta s) k) h m \<Longrightarrow>
   \<exists>r. map_of (indexed_files s) k = Some r \<and> file_hash r = h \<and> mtime r = m
        \<and> parse_error r \<in> {None, Some []}"
  by (auto simp: meta_lookup should_skip_def split: option.splits)

lemma refresh_index_row:
  assumes item: "(rel, d) \<in> set (current_map e)"
  shows "map_of (indexed_files (fst (refresh_index e s))) rel =
     (if should_skip (map_of (get_indexed_file_meta s) rel) (sha256_text e (df_source d)) (df_mtime d)
      then map_of (indexed_files s) rel
      else Some (fresh_row e rel d))"
proof -
  from item have "rel \<in> fst ` set (current_map e)" by force
  then have "rel \<notin> set (deleted_paths e s)" by (simp add: deleted_paths_set)
  then have "map_of (indexed_files (fold delete_file (deleted_paths e s) s)) rel
      = map_of (indexed_files s) rel"
    by (simp add: fold_delete_lookup)
  with fold_refresh_lookup [OF current_map_keys_distinct item, of e "get_indexed_file_meta s"
      "\<lparr>acc_store = fold delete_file (deleted_paths e s) s, acc_indexed = 0, acc_skipped = 0,
        acc_parse_errors = 0\<rparr>"]
  show ?thesis
    by (simp add: refresh_index_def Let_def rebuild_edges_tables)
qed

lemma fold_refresh_all_skipped:
  "(\<forall>(rel, d) \<in> set xs. should_skip (map_of prev rel) (sha256_text e (df_source d)) (df_mtime d))
   \<Longrightarrow> fold (refresh_file e prev) xs a = a\<lparr>acc_skipped := acc_skipped a + length xs\<rparr>"
proof (induction xs arbitrary: a)
  case Nil
  then show ?case by simp
next
  case (Cons x xs)
  obtain rel d where x: "x = (rel, d)" by (cases x)
  with Cons.prems have "refresh_file e prev x a = a\<lparr>acc_skipped := acc_skipped a + 1\<rparr>"
    by (simp add: refresh_file_def Let_def)
  with Cons show ?case by simp
qed

text \<open>
  C4 (as amended). Let the files be unchanged between two calls of \<^verbatim>\<open>refresh_index\<close>,
  let every enumerated file parse successfully, and let no two enumerated paths share a
  normalised path. Then the second call reports \<^verbatim>\<open>files_indexed == 0\<close> and a
  \<^verbatim>\<open>files_skipped\<close> equal to the first call's \<^verbatim>\<open>files_scanned\<close>, whatever the store was
  before the first call.
\<close>

theorem C4_second_refresh_skips_all:
  assumes parses: "\<forall>d \<in> set (iter_python_files e). \<exists>t. ast_parse e (df_path d) (df_source d) = Inr t"
      and dist: "distinct (map normalize_rel (iter_python_files e))"
  shows "files_indexed (snd (refresh_index e (fst (refresh_index e s)))) = 0
       \<and> files_skipped (snd (refresh_index e (fst (refresh_index e s))))
           = files_scanned (snd (refresh_index e s))"
proof -
  let ?s1 = "fst (refresh_index e s)"
  have skip: "should_skip (map_of (get_indexed_file_meta ?s1) rel)
                (sha256_text e (df_source d)) (df_mtime d)"
    if item: "(rel, d) \<in> set (current_map e)" for rel d
  proof (cases "should_skip (map_of (get_indexed_file_meta s) rel)
                  (sha256_text e (df_source d)) (df_mtime d)")
    case True
    then obtain r where r: "map_of (indexed_files s) rel = Some r"
        "file_hash r = sha256_text e (df_source d)" "mtime r = df_mtime d"
        "parse_error r \<in> {None, Some []}"
      using should_skip_stored by blast
    from True r(1) have "map_of (indexed_files ?s1) rel = Some r"
      by (simp add: refresh_index_row [OF item])
    with r show ?thesis by (intro should_skip_fresh [of r]) simp_all
  next
    case False
    then have row: "map_of (indexed_files ?s1) rel = Some (fresh_row e rel d)"
      by (simp add: refresh_index_row [OF item])
    from item have "d \<in> set (iter_python_files e)" by (simp add: current_map_values)
    with parses obtain t where "ast_parse e (df_path d) (df_source d) = Inr t" by blast
    then have "parse_error (fresh_row e rel d) = None"
      by (simp add: fresh_row_def parse_python_file_def Let_def)
    with row show ?thesis
      by (intro should_skip_fresh [of "fresh_row e rel d"]) (simp_all add: fresh_row_def)
  qed
  then have "\<forall>(rel, d) \<in> set (current_map e).
      should_skip (map_of (get_indexed_file_meta ?s1) rel) (sha256_text e (df_source d)) (df_mtime d)"
    by blast
  then have "fold (refresh_file e (get_indexed_file_meta ?s1)) (current_map e) a
      = a\<lparr>acc_skipped := acc_skipped a + length (current_map e)\<rparr>" for a
    by (rule fold_refresh_all_skipped)
  moreover have "length (current_map e) = files_scanned (snd (refresh_index e s))"
    using dist by (simp add: current_map_distinct refresh_index_def Let_def)
  ultimately show ?thesis
    by (simp add: refresh_index_def [of e ?s1] Let_def)
qed

theorem C4_second_refresh_skips_all_witness:
  "files_indexed (snd (refresh_index (env_of [file_a, file_b])
      (fst (refresh_index (env_of [file_a, file_b]) empty_store)))) = 0
   \<and> files_skipped (snd (refresh_index (env_of [file_a, file_b])
      (fst (refresh_index (env_of [file_a, file_b]) empty_store))))
     = files_scanned (snd (refresh_index (env_of [file_a, file_b]) empty_store))"
proof -
  have fs: "iter_python_files (env_of [file_a, file_b]) = [file_a, file_b]"
    by code_simp
  have 1: "\<forall>d \<in> set (iter_python_files (env_of [file_a, file_b])).
      \<exists>t. ast_parse (env_of [file_a, file_b]) (df_path d) (df_source d) = Inr t"
    unfolding fs by (simp add: env_of_def toy_parse_def file_a_def file_b_def)
  have 2: "distinct (map normalize_rel (iter_python_files (env_of [file_a, file_b])))"
    unfolding fs by (simp add: normalize_rel_def file_a_def file_b_def)
  show ?thesis using C4_second_refresh_skips_all [OF 1 2] .
qed

text \<open>
  The claim as stated fails for a file with a syntax error: its parse error is recorded,
  so the second refresh parses it again and skips nothing.
\<close>

theorem C4_counterexample:
  "\<not> (files_indexed (snd (refresh_index (env_of [file_bad])
          (fst (refresh_index (env_of [file_bad]) empty_store)))) = 0
      \<and> files_skipped (snd (refresh_index (env_of [file_bad])
          (fst (refresh_index (env_of [file_bad]) empty_store))))
        = files_scanned (snd (refresh_index (env_of [file_bad]) empty_store)))"
  by code_simp

section \<open>Deletion and the derived edge set\<close>

lemma delete_file_no_rows: "no_rows p (delete_file p s)"
  by (auto simp: no_rows_def delete_file_def)

lemma delete_file_keeps_no_rows: "no_rows p s \<Longrightarrow> no_rows p (delete_file q s)"
  by (auto simp: no_rows_def delete_file_def)

lemma fold_delete_keeps_no_rows: "no_rows p s \<Longrightarrow> no_rows p (fold delete_file ps s)"
  by (induction ps arbitrary: s) (simp_all add: delete_file_keeps_no_rows)

lemma fold_delete_no_rows: "p \<in> set ps \<Longrightarrow> no_rows p (fold delete_file ps s)"
proof (induction ps arbitrary: s)
  case Nil
  then show ?case by simp
next
  case (Cons q ps)
  show ?case
  proof (cases "p = q")
    case True
    then show ?thesis by (simp add: fold_delete_keeps_no_rows delete_file_no_rows)
  next
    case False
    with Cons show ?thesis by simp
  qed
qed

lemma refresh_file_no_rows:
  "p \<noteq> rel \<Longrightarrow> no_rows p (acc_store a) \<Longrightarrow> no_rows p (acc_store (refresh_file e prev (rel, d) a))"
  by (auto simp: refresh_file_def Let_def no_rows_def upsert_indexed_file_def
        replace_file_analysis_def dom_update split: prod.splits)

lemma fold_refresh_no_rows:
  "p \<notin> fst ` set xs \<Longrightarrow> no_rows p (acc_store a) \<Longrightarrow>
   no_rows p (acc_store (fold (refresh_file e prev) xs a))"
proof (induction xs arbitrary: a)
  case Nil
  then show ?case by simp
next
  case (Cons x xs)
  obtain rel d where x: "x = (rel, d)" by (cases x)
  with Cons.prems have "no_rows p (acc_store (refresh_file e prev x a))"
    by (auto intro: refresh_file_no_rows)
  with Cons show ?case by simp
qed

lemma delete_file_facts_owned: "facts_owned s \<Longrightarrow> facts_owned (delete_file q s)"
  by (auto simp: facts_owned_def delete_file_def)

lemma fold_delete_facts_owned: "facts_owned s \<Longrightarrow> facts_owned (fold delete_file ps s)"
  by (induction ps arbitrary: s) (simp_all add: delete_file_facts_owned)

lemma refresh_file_facts_owned:
  "facts_owned (acc_store a) \<Longrightarrow> facts_owned (acc_store (refresh_file e prev it a))"
  by (cases it)
     (auto simp: refresh_file_def Let_def facts_owned_def upsert_indexed_file_def
        replace_file_analysis_def dom_update split: prod.splits)

lemma fold_refresh_facts_owned:
  "facts_owned (acc_store a) \<Longrightarrow> facts_owned (acc_store (fold (refresh_file e prev) xs a))"
  by (induction xs arbitrary: a) (simp_all add: refresh_file_facts_owned)

lemma refresh_index_facts_owned: "facts_owned s \<Longrightarrow> facts_owned (fst (refresh_index e s))"
  using fold_refresh_facts_owned [of
      "\<lparr>acc_store = fold delete_file (deleted_paths e s) s, acc_indexed = 0, acc_skipped = 0,
        acc_parse_errors = 0\<rparr>" e "get_indexed_file_meta s" "current_map e"]
  by (simp add: refresh_index_def Let_def fold_delete_facts_owned)
     (simp add: facts_owned_def rebuild_edges_tables)

lemma fold_insert_or_ignore_subset: "set (fold insert_or_ignore es acc) \<subseteq> set es \<union> set acc"
proof (induction es arbitrary: acc)
  case Nil
  then show ?case by simp
next
  case (Cons x es)
  have "set (insert_or_ignore x acc) \<subseteq> insert x (set acc)"
    by (auto simp: insert_or_ignore_def)
  with Cons.IH [of "insert_or_ignore x acc"] show ?case by auto
qed

lemma edges_after_rebuild:
  "set (edges (fst (rebuild_edges e s))) \<subseteq> edge_of_tuple ` (set (import_edges e s) \<union> set (call_edges s))"
  using fold_insert_or_ignore_subset [of "map edge_of_tuple (sort (remdups (import_edges e s @ call_edges s)))" "[]"]
  by (auto simp: rebuild_edges_def Let_def replace_edges_def)

lemma find_SomeD: "find P xs = Some x \<Longrightarrow> x \<in> set xs \<and> P x"
  by (induction xs) (auto split: if_splits)

lemma first_existing_SomeD:
  "first_existing dsk cs = Some r \<Longrightarrow> \<exists>d \<in> set dsk. df_path d \<in> set cs \<and> normalize_rel d = r"
  by (induction cs) (auto split: option.splits dest: find_SomeD)

lemma ends_with_append: "ends_with (xs @ suf) suf"
  by (simp add: ends_with_def)

lemma resolve_import_SomeD:
  assumes "resolve_import_to_file e m = Some r"
  shows "\<exists>d \<in> set (disk e). normalize_rel d = r \<and> df_path d \<noteq> []
            \<and> ends_with (last (df_path d)) ''.py''"
proof -
  let ?parts = "split_on (CHR ''.'') m"
  from assms have "first_existing (disk e)
      [butlast ?parts @ [last ?parts @ ''.py''], ?parts @ [''__init__.py'']] = Some r"
    by (simp add: resolve_import_to_file_def Let_def split: if_splits)
  then obtain d where d: "d \<in> set (disk e)" "normalize_rel d = r"
      and c: "df_path d \<in> set [butlast ?parts @ [last ?parts @ ''.py''], ?parts @ [''__init__.py'']]"
    by (blast dest: first_existing_SomeD)
  from c have "df_path d = butlast ?parts @ [last ?parts @ ''.py'']
      \<or> df_path d = ?parts @ [''__init__.py'']"
    by simp
  then have "df_path d \<noteq> [] \<and> ends_with (last (df_path d)) ''.py''"
  proof
    assume "df_path d = butlast ?parts @ [last ?parts @ ''.py'']"
    then show ?thesis by (simp add: ends_with_append)
  next
    assume "df_path d = ?parts @ [''__init__.py'']"
    then show ?thesis using ends_with_append [of "''__init__''" "''.py''"] by simp
  qed
  with d show ?thesis by blast
qed

lemma import_edges_D:
  assumes "t \<in> set (import_edges e s)"
  shows "\<exists>src dst. t = (src, dst, ''import'', 1) \<and> src \<in> fst ` set (import_rows s) \<and> dst \<noteq> src \<and>
     (\<exists>d \<in> set (disk e). normalize_rel d = dst \<and> df_path d \<noteq> [] \<and> ends_with (last (df_path d)) ''.py'')"
proof -
  from assms obtain src m dst where row: "(src, m) \<in> set (import_rows s)"
      and res: "resolve_import_to_file e m = Some dst" and t: "t = (src, dst, ''import'', 1)"
      and neq: "dst \<noteq> src"
    by (auto simp: import_edges_def split: option.splits if_splits)
  from row have "src \<in> fst ` set (import_rows s)" by force
  with resolve_import_SomeD [OF res] t neq show ?thesis by blast
qed

lemma call_edges_D:
  assumes "t \<in> set (call_edges s)"
  shows "\<exists>src dst. t = (src, dst, ''call'', 7 / 10) \<and> src \<in> fst ` set (calls s) \<and> dst \<noteq> src
      \<and> dst \<in> fst ` set (symbols s)"
proof -
  from assms obtain src c dst where row: "(src, c) \<in> set (calls s)"
      and own: "dst \<in> set (symbol_files_by_name s (callee_name c))"
      and t: "t = (src, dst, ''call'', 7 / 10)" and neq: "dst \<noteq> src"
    by (auto simp: call_edges_def)
  from row have "src \<in> fst ` set (calls s)" by force
  moreover from own have "dst \<in> fst ` set (symbols s)"
    by (auto simp: symbol_files_by_name_def)
  ultimately show ?thesis using t neq by blast
qed

lemma refresh_index_keys:
  "fst ` set (indexed_files (fst (refresh_index e s))) = fst ` set (current_map e)"
proof -
  have dom: "fst ` set xs = {k. map_of xs k \<noteq> None}" for xs :: "(string \<times> indexed_file) list"
    using dom_map_of_conv_image_fst [of xs] by (auto simp: dom_def)
  have "map_of (indexed_files (fst (refresh_index e s))) k \<noteq> None \<longleftrightarrow> k \<in> fst ` set (current_map e)" for k
  proof (cases "k \<in> fst ` set (current_map e)")
    case True
    then obtain d where item: "(k, d) \<in> set (current_map e)" by force
    show ?thesis
      using True refresh_index_row [OF item, of s] should_skip_stored [of s k]
      by (auto split: if_splits)
  next
    case False
    then have "map_of (indexed_files (fst (refresh_index e s))) k
        = map_of (indexed_files (fold delete_file (deleted_paths e s) s)) k"
      using fold_refresh_lookup_other [of k "current_map e" e "get_indexed_file_meta s"
          "\<lparr>acc_store = fold delete_file (deleted_paths e s) s, acc_indexed = 0, acc_skipped = 0,
            acc_parse_errors = 0\<rparr>"]
      by (simp add: refresh_index_def Let_def rebuild_edges_tables)
    also have "\<dots> = None"
      using False dom [of "indexed_files s"]
      by (auto simp: fold_delete_lookup deleted_paths_set)
    finally show ?thesis using False by simp
  qed
  with dom [of "indexed_files (fst (refresh_index e s))"] show ?thesis by auto
qed


lemma reachable_facts_owned: "reachable s \<Longrightarrow> facts_owned s"
  by (induction rule: reachable.induct) (simp_all add: facts_owned_def empty_store_def refresh_index_facts_owned [unfolded facts_owned_def])

lemma iter_python_files_member:
  "d \<in> set (disk e) \<Longrightarrow> df_path d \<noteq> [] \<Longrightarrow> ends_with (last (df_path d)) ''.py'' \<Longrightarrow>
   set (df_resolved d) \<inter> SKIP_DIRS = {} \<Longrightarrow> d \<in> set (iter_python_files e)"
  by (simp add: iter_python_files_def)

lemma iter_python_files_subset: "set (iter_python_files e) \<subseteq> set (disk e)"
  by (auto simp: iter_python_files_def)

lemma edges_of_refresh:
  assumes own: "facts_owned s" and x: "x \<in> set (edges (fst (refresh_index e s)))"
  shows "src_file x \<in> fst ` set (indexed_files (fst (refresh_index e s)))
     \<and> (dst_file x \<in> fst ` set (indexed_files (fst (refresh_index e s)))
        \<or> (edge_type x = ''import''
           \<and> (\<exists>d \<in> set (disk e). normalize_rel d = dst_file x
                  \<and> set (df_resolved d) \<inter> SKIP_DIRS \<noteq> {})))"
proof -
  let ?a = "fold (refresh_file e (get_indexed_file_meta s)) (current_map e)
      \<lparr>acc_store = fold delete_file (deleted_paths e s) s, acc_indexed = 0, acc_skipped = 0,
        acc_parse_errors = 0\<rparr>"
  let ?s' = "fst (refresh_index e s)"
  let ?K = "fst ` set (indexed_files ?s')"
  have s': "?s' = fst (rebuild_edges e (acc_store ?a))"
    by (simp add: refresh_index_def Let_def)
  have tabs: "symbols (acc_store ?a) = symbols ?s'" "import_rows (acc_store ?a) = import_rows ?s'"
      "calls (acc_store ?a) = calls ?s'"
    by (simp_all add: s' rebuild_edges_tables)
  from own have "facts_owned ?s'" by (rule refresh_index_facts_owned)
  then have sub: "fst ` set (symbols ?s') \<subseteq> ?K" "fst ` set (import_rows ?s') \<subseteq> ?K"
      "fst ` set (calls ?s') \<subseteq> ?K"
    by (simp_all add: facts_owned_def)
  from x obtain t where t: "t \<in> set (import_edges e (acc_store ?a)) \<union> set (call_edges (acc_store ?a))"
      and xt: "x = edge_of_tuple t"
    using edges_after_rebuild [of e "acc_store ?a"] unfolding s' by blast
  from t show ?thesis
  proof
    assume "t \<in> set (import_edges e (acc_store ?a))"
    then obtain src dst d where t': "t = (src, dst, ''import'', 1)"
        and src: "src \<in> fst ` set (import_rows ?s')"
        and d: "d \<in> set (disk e)" "normalize_rel d = dst" "df_path d \<noteq> []"
          "ends_with (last (df_path d)) ''.py''"
      using import_edges_D [of t e "acc_store ?a"] unfolding tabs by blast
    have "dst \<in> ?K" if "set (df_resolved d) \<inter> SKIP_DIRS = {}"
    proof -
      from d that have "d \<in> set (iter_python_files e)" by (simp add: iter_python_files_member)
      with d(2) have "dst \<in> fst ` set (current_map e)" by (auto simp: current_map_keys)
      then show ?thesis by (simp add: refresh_index_keys)
    qed
    with t' xt src sub d show ?thesis by (auto simp: edge_of_tuple_def)
  next
    assume "t \<in> set (call_edges (acc_store ?a))"
    then obtain src dst where "t = (src, dst, ''call'', 7 / 10)"
        "src \<in> fst ` set (calls ?s')" "dst \<in> fst ` set (symbols ?s')"
      using call_edges_D [of t "acc_store ?a"] unfolding tabs by blast
    with xt sub show ?thesis by (auto simp: edge_of_tuple_def)
  qed
qed

text \<open>
  C5. After \<^verbatim>\<open>delete_file(path)\<close> the store has no metadata row for the path, no symbol,
  import or call row with that file path and no edge whose source or destination is the
  path; the rows of every other file are unchanged (per file, the same rows in the same
  order), and so are the edges that do not mention the path. Hence, when a refresh finds
  that an indexed path has disappeared from the disk, the path is among the deleted ones
  and the store after the refresh holds no row and no edge for it.
\<close>

theorem C5_delete_file:
  "p \<notin> fst ` set (indexed_files (delete_file p s))
   \<and> p \<notin> fst ` set (symbols (delete_file p s))
   \<and> p \<notin> fst ` set (import_rows (delete_file p s))
   \<and> p \<notin> fst ` set (calls (delete_file p s))
   \<and> (\<forall>x \<in> set (edges (delete_file p s)). src_file x \<noteq> p \<and> dst_file x \<noteq> p)
   \<and> (\<forall>q. q \<noteq> p \<longrightarrow>
         filter (\<lambda>r. fst r = q) (indexed_files (delete_file p s)) = filter (\<lambda>r. fst r = q) (indexed_files s)
       \<and> filter (\<lambda>r. fst r = q) (symbols (delete_file p s)) = filter (\<lambda>r. fst r = q) (symbols s)
       \<and> filter (\<lambda>r. fst r = q) (import_rows (delete_file p s)) = filter (\<lambda>r. fst r = q) (import_rows s)
       \<and> filter (\<lambda>r. fst r = q) (calls (delete_file p s)) = filter (\<lambda>r. fst r = q) (calls s))
   \<and> filter (\<lambda>x. src_file x \<noteq> p \<and> dst_file x \<noteq> p) (edges (delete_file p s))
       = filter (\<lambda>x. src_file x \<noteq> p \<and> dst_file x \<noteq> p) (edges s)
   \<and> (p \<in> fst ` set (indexed_files s) \<and> p \<notin> normalize_rel ` set (disk e) \<longrightarrow>
         p \<in> set (deleted_paths e s)
       \<and> p \<notin> fst ` set (indexed_files (fst (refresh_index e s)))
       \<and> p \<notin> fst ` set (symbols (fst (refresh_index e s)))
       \<and> p \<notin> fst ` set (import_rows (fst (refresh_index e s)))
       \<and> p \<notin> fst ` set (calls (fst (refresh_index e s)))
       \<and> (\<forall>x \<in> set (edges (fst (refresh_index e s))). src_file x \<noteq> p \<and> dst_file x \<noteq> p))"
proof -
  have del: "p \<notin> fst ` set (indexed_files (delete_file p s))
     \<and> p \<notin> fst ` set (symbols (delete_file p s))
     \<and> p \<notin> fst ` set (import_rows (delete_file p s))
     \<and> p \<notin> fst ` set (calls (delete_file p s))
     \<and> (\<forall>x \<in> set (edges (delete_file p s)). src_file x \<noteq> p \<and> dst_file x \<noteq> p)"
    by (auto simp: delete_file_def)
  have fr: "\<forall>q. q \<noteq> p \<longrightarrow>
         filter (\<lambda>r. fst r = q) (indexed_files (delete_file p s)) = filter (\<lambda>r. fst r = q) (indexed_files s)
       \<and> filter (\<lambda>r. fst r = q) (symbols (delete_file p s)) = filter (\<lambda>r. fst r = q) (symbols s)
       \<and> filter (\<lambda>r. fst r = q) (import_rows (delete_file p s)) = filter (\<lambda>r. fst r = q) (import_rows s)
       \<and> filter (\<lambda>r. fst r = q) (calls (delete_file p s)) = filter (\<lambda>r. fst r = q) (calls s)"
    by (auto simp: delete_file_def intro!: filter_cong)
  have fe: "filter (\<lambda>x. src_file x \<noteq> p \<and> dst_file x \<noteq> p) (edges (delete_file p s))
       = filter (\<lambda>x. src_file x \<noteq> p \<and> dst_file x \<noteq> p) (edges s)"
    by (auto simp: delete_file_def intro!: filter_cong)
  have rf: "p \<in> set (deleted_paths e s)
       \<and> p \<notin> fst ` set (indexed_files (fst (refresh_index e s)))
       \<and> p \<notin> fst ` set (symbols (fst (refresh_index e s)))
       \<and> p \<notin> fst ` set (import_rows (fst (refresh_index e s)))
       \<and> p \<notin> fst ` set (calls (fst (refresh_index e s)))
       \<and> (\<forall>x \<in> set (edges (fst (refresh_index e s))). src_file x \<noteq> p \<and> dst_file x \<noteq> p)"
    if idx: "p \<in> fst ` set (indexed_files s)" and gone: "p \<notin> normalize_rel ` set (disk e)"
  proof -
    let ?a = "fold (refresh_file e (get_indexed_file_meta s)) (current_map e)
      \<lparr>acc_store = fold delete_file (deleted_paths e s) s, acc_indexed = 0, acc_skipped = 0,
        acc_parse_errors = 0\<rparr>"
    have s': "fst (refresh_index e s) = fst (rebuild_edges e (acc_store ?a))"
      by (simp add: refresh_index_def Let_def)
    from gone have notcur: "p \<notin> fst ` set (current_map e)"
      using iter_python_files_subset [of e] by (auto simp: current_map_keys)
    with idx have del: "p \<in> set (deleted_paths e s)" by (simp add: deleted_paths_set)
    then have "no_rows p (fold delete_file (deleted_paths e s) s)" by (rule fold_delete_no_rows)
    with notcur have nr: "no_rows p (acc_store ?a)"
      by (intro fold_refresh_no_rows) simp_all
    have "src_file x \<noteq> p \<and> dst_file x \<noteq> p" if "x \<in> set (edges (fst (refresh_index e s)))" for x
    proof -
      from that obtain t where t: "t \<in> set (import_edges e (acc_store ?a)) \<union> set (call_edges (acc_store ?a))"
          and xt: "x = edge_of_tuple t"
        using edges_after_rebuild [of e "acc_store ?a"] unfolding s' by blast
      from t show ?thesis
      proof
        assume "t \<in> set (import_edges e (acc_store ?a))"
        then obtain src dst d where "t = (src, dst, ''import'', 1)"
            "src \<in> fst ` set (import_rows (acc_store ?a))" "d \<in> set (disk e)" "normalize_rel d = dst"
          using import_edges_D [of t e "acc_store ?a"] by blast
        with xt nr gone show ?thesis by (auto simp: edge_of_tuple_def no_rows_def)
      next
        assume "t \<in> set (call_edges (acc_store ?a))"
        then obtain src dst where "t = (src, dst, ''call'', 7 / 10)"
            "src \<in> fst ` set (calls (acc_store ?a))" "dst \<in> fst ` set (symbols (acc_store ?a))"
          using call_edges_D [of t "acc_store ?a"] by blast
        with xt nr show ?thesis by (auto simp: edge_of_tuple_def no_rows_def)
      qed
    qed
    with del nr show ?thesis
      by (simp add: s' rebuild_edges_tables no_rows_def)
  qed
  from del fr fe rf show ?thesis by blast
qed

theorem C5_delete_file_witness:
  "''b.py'' \<in> set (deleted_paths (env_of [file_a]) store_ab)
   \<and> ''b.py'' \<notin> fst ` set (indexed_files (fst (refresh_index (env_of [file_a]) store_ab)))
   \<and> ''b.py'' \<notin> fst ` set (symbols (fst (refresh_index (env_of [file_a]) store_ab)))
   \<and> ''b.py'' \<notin> fst ` set (symbols (delete_file ''b.py'' store_ab))
   \<and> filter (\<lambda>r. fst r = ''a.py'') (import_rows (delete_file ''b.py'' store_ab))
       = filter (\<lambda>r. fst r = ''a.py'') (import_rows store_ab)"
proof -
  have 1: "''b.py'' \<in> fst ` set (indexed_files store_ab)"
    by code_simp
  have 2: "''b.py'' \<notin> normalize_rel ` set (disk (env_of [file_a]))"
    by code_simp
  have 3: "''a.py'' \<noteq> ''b.py''"
    by simp
  note th = C5_delete_file [of "''b.py''" store_ab "env_of [file_a]"]
  note del = th [THEN conjunct2, THEN conjunct1]
  note frame = th [THEN conjunct2, THEN conjunct2, THEN conjunct2, THEN conjunct2,
      THEN conjunct2, THEN conjunct1, THEN spec, of "''a.py''", THEN mp, OF 3]
  note refr = th [THEN conjunct2, THEN conjunct2, THEN conjunct2, THEN conjunct2,
      THEN conjunct2, THEN conjunct2, THEN conjunct2, THEN mp, OF conjI [OF 1 2]]
  note r1 = refr [THEN conjunct1]
  note r2 = refr [THEN conjunct2, THEN conjunct1]
  note r3 = refr [THEN conjunct2, THEN conjunct2, THEN conjunct1]
  from frame have f: "filter (\<lambda>r. fst r = ''a.py'') (import_rows (delete_file ''b.py'' store_ab))
       = filter (\<lambda>r. fst r = ''a.py'') (import_rows store_ab)"
    by (elim conjE)
  from r1 r2 r3 del f show ?thesis
    by (intro conjI)
qed

text \<open>
  C6 (as amended). After the edge rebuild of a refresh, every edge's source has a
  metadata row, and every edge's destination has one too unless the edge is an import
  edge whose destination is a file on disk with an excluded directory name among its
  path components (such a file matches \<^verbatim>\<open><path>.py\<close> or \<^verbatim>\<open><path>/__init__.py\<close> but is
  never enumerated, so never indexed). In particular every call edge joins two indexed
  files.
\<close>

theorem C6_edges_reference_indexed_files:
  assumes "reachable s"
  shows "\<forall>x \<in> set (edges (fst (refresh_index e s))).
     src_file x \<in> fst ` set (indexed_files (fst (refresh_index e s)))
     \<and> (dst_file x \<in> fst ` set (indexed_files (fst (refresh_index e s)))
        \<or> (edge_type x = ''import''
           \<and> (\<exists>d \<in> set (disk e). normalize_rel d = dst_file x
                  \<and> set (df_resolved d) \<inter> SKIP_DIRS \<noteq> {})))"
  using edges_of_refresh [OF reachable_facts_owned [OF assms]] by blast

theorem C6_edges_reference_indexed_files_witness:
  "edges store_ab =
     [\<lparr>src_file = ''a.py'', dst_file = ''b.py'', edge_type = ''import'', weight = 1\<rparr>]
   \<and> ''a.py'' \<in> fst ` set (indexed_files store_ab)
   \<and> ''b.py'' \<in> fst ` set (indexed_files store_ab)"
proof -
  let ?x = "\<lparr>src_file = ''a.py'', dst_file = ''b.py'', edge_type = ''import'', weight = 1\<rparr>"
  have e: "edges store_ab = [?x]"
    by code_simp
  then have mem: "?x \<in> set (edges (fst (refresh_index (env_of [file_a, file_b]) empty_store)))"
    by (simp add: store_ab_def)
  have nd: "\<not> (\<exists>d \<in> set (disk (env_of [file_a, file_b])). normalize_rel d = dst_file ?x
                  \<and> set (df_resolved d) \<inter> SKIP_DIRS \<noteq> {})"
    by (simp add: env_of_def file_a_def file_b_def SKIP_DIRS_def)
  from C6_edges_reference_indexed_files [OF reachable_empty, of "env_of [file_a, file_b]",
      THEN bspec, OF mem] nd
  have "src_file ?x \<in> fst ` set (indexed_files store_ab)
      \<and> dst_file ?x \<in> fst ` set (indexed_files store_ab)"
    unfolding store_ab_def by blast
  with e show ?thesis by simp
qed

text \<open>
  The claim as stated fails for an import that resolves into an excluded directory:
  \<^verbatim>\<open>main.py\<close> imports \<^verbatim>\<open>build.helper\<close> and \<^verbatim>\<open>build/helper.py\<close> is on disk. The import
  edge is stored, its destination is not indexed.
\<close>

theorem C6_counterexample:
  "edges (fst (refresh_index (env_of [file_main, file_build_helper]) empty_store))
     = [\<lparr>src_file = ''main.py'', dst_file = ''build/helper.py'', edge_type = ''import'',
          weight = 1\<rparr>]
   \<and> ''build/helper.py'' \<notin> fst ` set (indexed_files
         (fst (refresh_index (env_of [file_main, file_build_helper]) empty_store)))"
  by code_simp

section \<open>The parser's boundary\<close>

text \<open>
  C8. \<^verbatim>\<open>_parse_python_file\<close> returns a result for every outcome of \<^verbatim>\<open>ast.parse\<close> that
  it handles: when \<^verbatim>\<open>ast.parse\<close> raises \<^verbatim>\<open>SyntaxError\<close> or \<^verbatim>\<open>ValueError\<close>, the symbol,
  import and call lists are empty and the parse error is the exception's text (a
  non-empty string, Python's messages being non-empty); when it returns a tree, the
  result holds the collector's symbols and calls, the extracted imports, and no parse
  error. (The model function is total: no case is left in which it has no result.)
\<close>

theorem C8_parse_python_file_total:
  "(\<forall>msg. run_parser text = Inl msg \<and> msg \<noteq> [] \<longrightarrow>
       parse_python_file run_parser text = ([], [], [], Some msg)
       \<and> snd (snd (snd (parse_python_file run_parser text))) \<notin> {None, Some []})
   \<and> (\<forall>tree. run_parser text = Inr tree \<longrightarrow>
       parse_python_file run_parser text =
         (col_symbols (visit [] tree \<lparr>col_symbols = [], col_calls = []\<rparr>),
          extract_imports tree,
          col_calls (visit [] tree \<lparr>col_symbols = [], col_calls = []\<rparr>),
          None))"
  by (simp add: parse_python_file_def Let_def)

theorem C8_parse_python_file_total_witness: "parse_python_file (toy_parse [''bad.py'']) ''def broken(:'' = ([], [], [], Some ''invalid syntax'')
  \<and> parse_python_file (toy_parse [''b.py'']) ''def foo(): return 1'' =
     ([\<lparr>symbol_name = ''foo'', qualname = ''foo'', kind = ''function'', lineno = 1, end_lineno = 2, signature = ''def foo()''\<rparr>], [], [], None)"
proof -
  have 1: "toy_parse [''bad.py''] ''def broken(:'' = Inl ''invalid syntax'' \<and> ''invalid syntax'' \<noteq> []"
    by (simp add: toy_parse_def)
  have 2: "toy_parse [''b.py''] ''def foo(): return 1'' = Inr b_tree"
    by (simp add: toy_parse_def)
  have 3: "col_symbols (visit [] b_tree \<lparr>col_symbols = [], col_calls = []\<rparr>) = [\<lparr>symbol_name = ''foo'', qualname = ''foo'', kind = ''function'', lineno = 1, end_lineno = 2, signature = ''def foo()''\<rparr>]"
    by code_simp
  have 4: "col_calls (visit [] b_tree \<lparr>col_symbols = [], col_calls = []\<rparr>) = []"
    by code_simp
  have 5: "extract_imports b_tree = []" by code_simp
  note th = C8_parse_python_file_total [of "toy_parse [''bad.py'']" "''def broken(:''"]
  note th2 = C8_parse_python_file_total [of "toy_parse [''b.py'']" "''def foo(): return 1''"]
  from th [THEN conjunct1, THEN spec, THEN mp, OF 1] th2 [THEN conjunct2, THEN spec, THEN mp, OF 2] 3 4 5
  show ?thesis by simp
qed

section \<open>Import extraction\<close>

lemma extract_imports_sorted: "sorted (extract_imports tree) \<and> distinct (extract_imports tree)"
  by (simp add: extract_imports_def)

lemma extract_imports_set:
  "set (extract_imports tree) = (\<Union>n \<in> set (walk tree). set (import_tokens n))"
  by (simp add: extract_imports_def)

lemma import_token_forms:
  "import_tokens (Node (Import [''a.b'']) []) = [''a.b'']"
  "import_tokens (Node (ImportFrom (Some ''a.b'') [''c'']) []) = [''a.b.c'']"
  "import_tokens (Node (ImportFrom (Some ''a.b'') [''*'']) []) = [''a.b'']"
  "import_tokens (Node (ImportFrom None [''c'']) []) = [''c'']"
  by simp_all

text \<open>
  C9. The claim and the docstring of \<^verbatim>\<open>_extract_imports\<close> say that the module-level
  imports are extracted. The function iterates \<^verbatim>\<open>ast.walk(tree)\<close>, which yields every
  node of the tree, so an import statement inside a function body contributes its token
  as well: for a module whose only statement is a function \<^verbatim>\<open>load\<close> with the body
  \<^verbatim>\<open>import os\<close>, nothing is imported at module scope and the result is \<^verbatim>\<open>['os']\<close>.
  (The lemmas above are the part of the claim that holds: the list is sorted and free
  of duplicates, and the three forms contribute the tokens the claim names.)
\<close>

theorem C9_nested_import_extracted:
  "extract_imports nested_import_tree = [''os'']"
  by code_simp

end
